theory Spec2Isabelle
  imports
    Complex_Main
    "HOL-Library.Char_ord"
    "HOL-Library.List_Lexorder"
    "HOL-Library.Product_Lexorder"
    "HOL-Library.Multiset"
    "HOL-Library.Log_Nat"
begin

chapter \<open>Guernica: the rule-set comparison pipeline of \<^verbatim>\<open>guernica.py\<close>\<close>

text \<open>
  A shallow embedding of the pipeline of \<^verbatim>\<open>src/guernica.py\<close>: the format detector
  \<^verbatim>\<open>is_iptables_file\<close>, the normalizer \<^verbatim>\<open>normalize_iptables_config\<close>, the differ
  \<^verbatim>\<open>compare_configs\<close>, the risk classifier \<^verbatim>\<open>detect_security_risks\<close> and the impact
  scorer \<^verbatim>\<open>calculate_impact_metrics\<close>.

  A Python \<^verbatim>\<open>str\<close> is modelled as a \<^typ>\<open>string\<close>, a list of \<^typ>\<open>char\<close>: the
  code points 0 to 255. The character classes below are those of Python 3 on that range.
\<close>

section \<open>Strings\<close>

text \<open>\<^verbatim>\<open>str.isspace\<close> and the class \<^verbatim>\<open>\s\<close> of \<^verbatim>\<open>re\<close> on code points below 256.\<close>

definition is_space :: "char \<Rightarrow> bool" where
  "is_space c = (of_char c \<in> set [9, 10, 11, 12, 13, 28, 29, 30, 31, 32, 133, 160 :: nat])"

text \<open>The class \<^verbatim>\<open>\d\<close>: the decimal digits.\<close>

definition is_digit :: "char \<Rightarrow> bool" where
  "is_digit c = (48 \<le> (of_char c :: nat) \<and> (of_char c :: nat) \<le> 57)"

text \<open>The class \<^verbatim>\<open>\w\<close>: alphanumeric code points and the underscore.\<close>

definition is_word :: "char \<Rightarrow> bool" where
  "is_word c = (let n = (of_char c :: nat) in
     (48 \<le> n \<and> n \<le> 57) \<or> (65 \<le> n \<and> n \<le> 90) \<or> n = 95 \<or> (97 \<le> n \<and> n \<le> 122) \<or>
     n \<in> set [170, 178, 179, 181, 185, 186, 188, 189, 190] \<or>
     (192 \<le> n \<and> n \<le> 214) \<or> (216 \<le> n \<and> n \<le> 246) \<or> (248 \<le> n \<and> n \<le> 255))"

text \<open>\<^verbatim>\<open>s.startswith(p)\<close>, \<^verbatim>\<open>p in s\<close> and \<^verbatim>\<open>s.strip()\<close>.\<close>

definition startswith :: "string \<Rightarrow> string \<Rightarrow> bool" where
  "startswith s p = (take (length p) s = p)"

fun contains :: "string \<Rightarrow> string \<Rightarrow> bool" where
  "contains [] p = (p = [])"
| "contains (c # cs) p = (startswith (c # cs) p \<or> contains cs p)"

definition strip :: "string \<Rightarrow> string" where
  "strip s = rev (dropWhile is_space (rev (dropWhile is_space s)))"

text \<open>\<^verbatim>\<open>int(s)\<close> on a string of decimal digits, and \<^verbatim>\<open>str(n)\<close> for \<open>n \<ge> 0\<close>.\<close>

definition int_of :: "string \<Rightarrow> nat" where
  "int_of s = foldl (\<lambda>n c. 10 * n + (of_char c - 48)) 0 s"

fun str_of :: "nat \<Rightarrow> string" where
  "str_of n =
     (if n < 10 then [''0123456789'' ! n] else str_of (n div 10) @ [''0123456789'' ! (n mod 10)])"

declare str_of.simps [simp del]

section \<open>Regular expressions\<close>

text \<open>
  The fragment of Python's \<^verbatim>\<open>re\<close> syntax that the patterns of the source use: literal
  text, the classes \<^verbatim>\<open>.\<close> (any character but a newline), \<^verbatim>\<open>\s\<close>, \<^verbatim>\<open>\w\<close>, \<^verbatim>\<open>\d\<close>
  and \<^verbatim>\<open>[a-b]\<close>, the greedy repetitions \<^verbatim>\<open>*\<close> and \<^verbatim>\<open>+\<close> of a class, \<^verbatim>\<open>$\<close>,
  concatenation, alternation, the greedy option \<^verbatim>\<open>?\<close> and numbered groups.
\<close>

datatype cclass = Dot | Space | Word | Digit | Range char char

datatype rx =
    Lit string
  | Cl cclass
  | Star cclass
  | Plus cclass
  | Eol
  | Seq rx rx
  | Alt rx rx
  | Opt rx
  | Grp nat rx

fun in_class :: "cclass \<Rightarrow> char \<Rightarrow> bool" where
  "in_class Dot c = (c \<noteq> CHR 0x0A)"
| "in_class Space c = is_space c"
| "in_class Word c = is_word c"
| "in_class Digit c = is_digit c"
| "in_class (Range lo hi) c = ((of_char lo :: nat) \<le> of_char c \<and> (of_char c :: nat) \<le> of_char hi)"

text \<open>The concatenation of a list of expressions.\<close>

fun cat :: "rx list \<Rightarrow> rx" where
  "cat [] = Lit []"
| "cat [r] = r"
| "cat (r # rs) = Seq r (cat rs)"

type_synonym groups = "(nat \<times> string) list"

text \<open>
  \<open>rx_match r (s, g)\<close> lists every way \<open>r\<close> matches at the start of \<open>s\<close>, as the text left
  after the match and the groups set, in the order a backtracking matcher tries them: a
  greedy repetition the longest first, an alternation left to right, an option with its
  body first. The head of the list is the match Python reports.
\<close>

fun rx_match :: "rx \<Rightarrow> string \<times> groups \<Rightarrow> (string \<times> groups) list" where
  "rx_match (Lit w) (s, g) = (if startswith s w then [(drop (length w) s, g)] else [])"
| "rx_match (Cl k) (s, g) =
     (case s of [] \<Rightarrow> [] | c # cs \<Rightarrow> if in_class k c then [(cs, g)] else [])"
| "rx_match (Star k) (s, g) =
     map (\<lambda>n. (drop n s, g)) (rev [0 ..< Suc (length (takeWhile (in_class k) s))])"
| "rx_match (Plus k) (s, g) =
     map (\<lambda>n. (drop n s, g)) (rev [1 ..< Suc (length (takeWhile (in_class k) s))])"
| "rx_match Eol (s, g) = (if s = [] \<or> s = [CHR 0x0A] then [(s, g)] else [])"
| "rx_match (Seq r1 r2) st = concat (map (rx_match r2) (rx_match r1 st))"
| "rx_match (Alt r1 r2) st = rx_match r1 st @ rx_match r2 st"
| "rx_match (Opt r) st = rx_match r st @ [st]"
| "rx_match (Grp n r) (s, g) =
     map (\<lambda>(s', g'). (s', (n, take (length s - length s') s) # g')) (rx_match r (s, g))"

text \<open>
  The search loop of \<^verbatim>\<open>re\<close>: the first match at the leftmost position that has one,
  as the text before the match, the groups (group 0 is the matched text) and the text
  after the match. With \<open>must_advance\<close> the match at the first position must not be empty
  (the matcher sets this flag after an empty match, in \<^verbatim>\<open>re.sub\<close>).
\<close>

fun re_find :: "rx \<Rightarrow> bool \<Rightarrow> string \<Rightarrow> (string \<times> groups \<times> string) option" where
  "re_find r must_advance [] =
     (case filter (\<lambda>(s', g). \<not> must_advance) (rx_match r ([], [])) of
        (s', g) # _ \<Rightarrow> Some ([], (0, []) # g, s')
      | [] \<Rightarrow> None)"
| "re_find r must_advance (c # cs) =
     (case filter (\<lambda>(s', g). \<not> must_advance \<or> length s' < length (c # cs))
             (rx_match r (c # cs, [])) of
        (s', g) # _ \<Rightarrow> Some ([], (0, take (length (c # cs) - length s') (c # cs)) # g, s')
      | [] \<Rightarrow> map_option (\<lambda>(pre, g, rest). (c # pre, g, rest)) (re_find r False cs))"

text \<open>\<^verbatim>\<open>re.search(pattern, s)\<close>: the groups of the match, or \<open>None\<close>.\<close>

definition re_search :: "rx \<Rightarrow> string \<Rightarrow> groups option" where
  "re_search r s = map_option (\<lambda>(pre, g, rest). g) (re_find r False s)"

text \<open>\<^verbatim>\<open>m.group(n)\<close>: \<open>None\<close> for a group that took no part in the match.\<close>

definition group :: "groups \<Rightarrow> nat \<Rightarrow> string option" where
  "group g n = map_of g n"

text \<open>Every match leaves a suffix of the text it started from.\<close>

lemma rx_match_suffix:
  "(s', g') \<in> set (rx_match r (s, g)) \<Longrightarrow> \<exists>p. s = p @ s'"
proof (induction r arbitrary: s g s' g')
  case (Lit w)
  then have "s = take (length w) s @ s'"
    by (auto split: if_splits)
  then show ?case by blast
next
  case (Cl k)
  then show ?case by (auto split: list.splits if_splits)
next
  case (Star k)
  then obtain n where "s' = drop n s" by auto
  then have "s = take n s @ s'" by simp
  then show ?case by blast
next
  case (Plus k)
  then obtain n where "s' = drop n s" by auto
  then have "s = take n s @ s'" by simp
  then show ?case by blast
next
  case Eol
  then show ?case by (auto split: if_splits)
next
  case (Seq r1 r2)
  from Seq.prems obtain s1 g1 where
    a: "(s1, g1) \<in> set (rx_match r1 (s, g))" and b: "(s', g') \<in> set (rx_match r2 (s1, g1))"
    by auto
  from Seq.IH(1) [OF a] obtain p where "s = p @ s1" by blast
  moreover from Seq.IH(2) [OF b] obtain q where "s1 = q @ s'" by blast
  ultimately have "s = (p @ q) @ s'" by simp
  then show ?case by blast
next
  case (Alt r1 r2)
  then show ?case by auto
next
  case (Opt r)
  then show ?case by auto
next
  case (Grp n r)
  then show ?case by auto
qed

lemma rx_match_length:
  "(s', g') \<in> set (rx_match r (s, g)) \<Longrightarrow> length s' \<le> length s"
  using rx_match_suffix [of s' g' r s g] by auto

lemma re_find_length:
  "re_find r adv s = Some (pre, g, rest) \<Longrightarrow>
   length pre + length rest \<le> length s \<and> (adv \<longrightarrow> length rest < length s)"
proof (induction s arbitrary: adv pre g rest)
  case Nil
  show ?case
  proof (cases "filter (\<lambda>(s', g). \<not> adv) (rx_match r ([], []))")
    case Nil
    with Nil.prems show ?thesis by simp
  next
    case (Cons x xs)
    obtain s' g' where x: "x = (s', g')" by (cases x)
    from Cons x have "(s', g') \<in> set (filter (\<lambda>(s', g). \<not> adv) (rx_match r ([], [])))"
      by simp
    then have m: "(s', g') \<in> set (rx_match r ([], []))" and a: "\<not> adv"
      by auto
    from Nil.prems Cons x have "pre = []" "rest = s'" by auto
    with rx_match_length [OF m] a show ?thesis by auto
  qed
next
  case (Cons c cs)
  show ?case
  proof (cases "filter (\<lambda>(s', g). \<not> adv \<or> length s' < length (c # cs)) (rx_match r (c # cs, []))")
    case Nil
    with Cons.prems obtain pre' where
      f: "re_find r False cs = Some (pre', g, rest)" and p: "pre = c # pre'"
      by auto
    from Cons.IH [OF f] p show ?thesis by auto
  next
    case (Cons x xs)
    obtain s' g' where x: "x = (s', g')" by (cases x)
    from Cons x have "(s', g') \<in> set (filter (\<lambda>(s', g). \<not> adv \<or> length s' < length (c # cs))
        (rx_match r (c # cs, [])))"
      by simp
    then have m: "(s', g') \<in> set (rx_match r (c # cs, []))"
      and a: "\<not> adv \<or> length s' < length (c # cs)"
      by auto
    from Cons.prems Cons x have "pre = []" "rest = s'" by auto
    with rx_match_length [OF m] a show ?thesis by auto
  qed
qed

text \<open>
  \<^verbatim>\<open>re.sub(pattern, repl, s)\<close>: every match, found from left to right from the end of
  the one before, is replaced; the text between the matches is kept. \<open>repl\<close> builds the
  replacement from the groups of the match.
\<close>

function re_sub_from :: "rx \<Rightarrow> (groups \<Rightarrow> string) \<Rightarrow> bool \<Rightarrow> string \<Rightarrow> string" where
  "re_sub_from r repl must_advance s =
     (case re_find r must_advance s of
        None \<Rightarrow> s
      | Some (pre, g, rest) \<Rightarrow>
          pre @ repl g @ re_sub_from r repl (length pre + length rest = length s) rest)"
  by pat_completeness auto
termination
  apply (relation "measure (\<lambda>(r, repl, adv, s). 2 * length s + (if adv then 0 else 1))")
   apply simp
  subgoal for r repl must_advance s x2 pre y g rest
    using re_find_length [of r must_advance s pre g rest] by auto
  done

declare re_sub_from.simps [simp del]

definition re_sub :: "rx \<Rightarrow> (groups \<Rightarrow> string) \<Rightarrow> string \<Rightarrow> string" where
  "re_sub r repl s = re_sub_from r repl False s"

section \<open>Format detector\<close>

text \<open>The list \<^verbatim>\<open>iptables_patterns\<close> of \<^verbatim>\<open>is_iptables_file\<close>.\<close>

definition iptables_patterns :: "rx list" where
  "iptables_patterns =
    [ Lit ''iptables'',
      cat [Lit ''-A'', Plus Space, Plus Word],
      cat [Lit ''-p'', Plus Space, Plus Word],
      Lit ''--dport'',
      Lit ''--sport'',
      cat [Lit ''-j'', Plus Space, Plus Word],
      Alt (Lit ''ACCEPT'') (Alt (Lit ''DROP'') (Lit ''REJECT'')) ]"

text \<open>
  The inner loop of \<^verbatim>\<open>is_iptables_file\<close> stops at the first pattern found in the line:
  the line counts once when some pattern is found in it.
\<close>

definition line_matches :: "string \<Rightarrow> bool" where
  "line_matches line = list_ex (\<lambda>pattern. re_search pattern line \<noteq> None) iptables_patterns"

text \<open>The outer loop, with the counter \<^verbatim>\<open>matches\<close> and the threshold 3.\<close>

fun scan_lines :: "nat \<Rightarrow> string list \<Rightarrow> bool" where
  "scan_lines matches [] = False"
| "scan_lines matches (line # rest) =
     (let matches' = (if line_matches line then matches + 1 else matches)
      in if matches' \<ge> 3 then True else scan_lines matches' rest)"

definition is_iptables_file :: "string list \<Rightarrow> bool" where
  "is_iptables_file content = (if content = [] then False else scan_lines 0 content)"

section \<open>Normalizer\<close>

text \<open>
  The pattern \<^verbatim>\<open>--([A-Z])\<close> with its replacement \<^verbatim>\<open>-\1\<close>, and the pattern \<^verbatim>\<open>\s+\<close>
  with its replacement, one space.
\<close>

definition double_dash :: rx where
  "double_dash = cat [Lit ''--'', Grp 1 (Cl (Range CHR ''A'' CHR ''Z''))]"

definition single_dash :: "groups \<Rightarrow> string" where
  "single_dash g = ''-'' @ (case group g 1 of Some t \<Rightarrow> t | None \<Rightarrow> [])"

definition spaces :: rx where
  "spaces = Plus Space"

definition one_space :: "groups \<Rightarrow> string" where
  "one_space g = '' ''"

text \<open>The body of the loop of \<^verbatim>\<open>normalize_iptables_config\<close>, for a line it keeps.\<close>

definition normalize_line :: "string \<Rightarrow> string" where
  "normalize_line line =
     (let fixed_line = re_sub double_dash single_dash (strip line);
          normalized_line = re_sub spaces one_space fixed_line
      in normalized_line)"

text \<open>The lines the loop keeps: not blank, and not a comment.\<close>

definition is_rule_line :: "string \<Rightarrow> bool" where
  "is_rule_line line = (strip line \<noteq> [] \<and> \<not> startswith (strip line) ''#'')"

text \<open>
  \<^verbatim>\<open>sorted\<close> on a list of strings puts them in ascending order by code points, which is
  the order of \<^typ>\<open>string\<close> here.
\<close>

definition normalize_iptables_config :: "string list \<Rightarrow> string list" where
  "normalize_iptables_config lines = sort (map normalize_line (filter is_rule_line lines))"

section \<open>Differ\<close>

text \<open>
  \<^verbatim>\<open>compare_configs\<close> calls \<^verbatim>\<open>difflib.unified_diff(before, after, lineterm='')\<close> of
  the Python standard library. This section follows \<^verbatim>\<open>Lib/difflib.py\<close> of CPython:
  \<^verbatim>\<open>SequenceMatcher(None, a, b)\<close> with its default \<^verbatim>\<open>autojunk=True\<close>, and
  \<^verbatim>\<open>unified_diff\<close> with its default \<^verbatim>\<open>n=3\<close> lines of context and empty file names and
  dates. With \<^verbatim>\<open>isjunk=None\<close> the set \<^verbatim>\<open>bjunk\<close> is empty: \<^verbatim>\<open>isbjunk\<close> is false
  everywhere and the two loops of \<^verbatim>\<open>find_longest_match\<close> that extend a match over junk
  never run.
\<close>

subsection \<open>\<^verbatim>\<open>SequenceMatcher.__chain_b\<close>\<close>

text \<open>
  \<^verbatim>\<open>b2j\<close> maps an element of \<open>b\<close> to the ascending list of the indices where it
  stands. When \<open>b\<close> has 200 elements or more, the elements that stand at more than
  \<open>n // 100 + 1\<close> indices are popular, and are deleted from \<^verbatim>\<open>b2j\<close>.
\<close>

definition chain_b :: "'a list \<Rightarrow> ('a \<rightharpoonup> nat list)" where
  "chain_b b =
     (let b2j = fold (\<lambda>(i, elt) b2j.
                   b2j(elt \<mapsto> (case b2j elt of None \<Rightarrow> [] | Some indices \<Rightarrow> indices) @ [i]))
                 (enumerate 0 b) Map.empty;
          n = length b
      in if n \<ge> 200
         then (let ntest = n div 100 + 1
               in (\<lambda>elt. case b2j elt of
                     None \<Rightarrow> None
                   | Some idxs \<Rightarrow> if length idxs > ntest then None else Some idxs))
         else b2j)"

subsection \<open>\<^verbatim>\<open>SequenceMatcher.find_longest_match\<close>\<close>

type_synonym match = "nat \<times> nat \<times> nat"

text \<open>
  The loop over the indices \<open>j\<close> of \<^verbatim>\<open>b2j.get(a[i], nothing)\<close>, with its \<^verbatim>\<open>continue\<close>
  below \<open>blo\<close> and its \<^verbatim>\<open>break\<close> from \<open>bhi\<close> on. The keys of \<^verbatim>\<open>j2len\<close> are integers:
  for \<open>j = 0\<close> the loop looks up the key \<open>-1\<close>, which is never set. A run of \<open>k\<close> matching
  elements ends at \<open>a[i]\<close> and at \<open>b[j]\<close>, so \<open>k \<le> i + 1\<close> and \<open>k \<le> j + 1\<close>
  (lemma \<open>inner_loop_bounds\<close> below) and the differences \<open>i - k + 1\<close> and \<open>j - k + 1\<close>
  of the source are natural numbers.
\<close>

fun inner_loop ::
  "nat \<Rightarrow> nat \<Rightarrow> nat \<Rightarrow> (int \<rightharpoonup> nat) \<Rightarrow> nat list \<Rightarrow> (int \<rightharpoonup> nat) \<times> match \<Rightarrow> (int \<rightharpoonup> nat) \<times> match"
where
  "inner_loop i blo bhi j2len [] st = st"
| "inner_loop i blo bhi j2len (j # js) (newj2len, besti, bestj, bestsize) =
     (if j < blo then inner_loop i blo bhi j2len js (newj2len, besti, bestj, bestsize)
      else if j \<ge> bhi then (newj2len, besti, bestj, bestsize)
      else
        (let k = (case j2len (int j - 1) of None \<Rightarrow> 0 | Some v \<Rightarrow> v) + 1
         in if k > bestsize
            then inner_loop i blo bhi j2len js (newj2len(int j \<mapsto> k), i + 1 - k, j + 1 - k, k)
            else inner_loop i blo bhi j2len js (newj2len(int j \<mapsto> k), besti, bestj, bestsize)))"

text \<open>The loop over \<open>i\<close> in \<^verbatim>\<open>range(alo, ahi)\<close>.\<close>

fun outer_loop ::
  "'a list \<Rightarrow> ('a \<rightharpoonup> nat list) \<Rightarrow> nat \<Rightarrow> nat \<Rightarrow> nat list \<Rightarrow> (int \<rightharpoonup> nat) \<times> match \<Rightarrow> match"
where
  "outer_loop a b2j blo bhi [] (j2len, best) = best"
| "outer_loop a b2j blo bhi (i # is) (j2len, best) =
     outer_loop a b2j blo bhi is
       (inner_loop i blo bhi j2len (case b2j (a ! i) of None \<Rightarrow> [] | Some js \<Rightarrow> js)
          (Map.empty, best))"

text \<open>The two loops that extend the best match by equal elements on each end.\<close>

function extend_left :: "'a list \<Rightarrow> 'a list \<Rightarrow> nat \<Rightarrow> nat \<Rightarrow> match \<Rightarrow> match" where
  "extend_left a b alo blo (besti, bestj, bestsize) =
     (if besti > alo \<and> bestj > blo \<and> a ! (besti - 1) = b ! (bestj - 1)
      then extend_left a b alo blo (besti - 1, bestj - 1, bestsize + 1)
      else (besti, bestj, bestsize))"
  by pat_completeness auto
termination
  by (relation "measure (\<lambda>(a, b, alo, blo, besti, bestj, bestsize). besti)") auto

declare extend_left.simps [simp del]

function extend_right :: "'a list \<Rightarrow> 'a list \<Rightarrow> nat \<Rightarrow> nat \<Rightarrow> match \<Rightarrow> match" where
  "extend_right a b ahi bhi (besti, bestj, bestsize) =
     (if besti + bestsize < ahi \<and> bestj + bestsize < bhi
         \<and> a ! (besti + bestsize) = b ! (bestj + bestsize)
      then extend_right a b ahi bhi (besti, bestj, bestsize + 1)
      else (besti, bestj, bestsize))"
  by pat_completeness auto
termination
  by (relation "measure (\<lambda>(a, b, ahi, bhi, besti, bestj, bestsize). ahi - (besti + bestsize))") auto

declare extend_right.simps [simp del]

definition find_longest_match ::
  "'a list \<Rightarrow> 'a list \<Rightarrow> ('a \<rightharpoonup> nat list) \<Rightarrow> nat \<Rightarrow> nat \<Rightarrow> nat \<Rightarrow> nat \<Rightarrow> match" where
  "find_longest_match a b b2j alo ahi blo bhi =
     extend_right a b ahi bhi
       (extend_left a b alo blo
          (outer_loop a b2j blo bhi [alo ..< ahi] (Map.empty, (alo, blo, 0))))"

text \<open>
  Bounds of the match found. The values of \<^verbatim>\<open>j2len\<close> are lengths of runs that end at
  the row before \<open>i\<close>; a match that is not empty ends inside the two ranges.
\<close>

definition j2len_ok :: "nat \<Rightarrow> (int \<rightharpoonup> nat) \<Rightarrow> bool" where
  "j2len_ok i j2len = (\<forall>z v. j2len z = Some v \<longrightarrow> 0 \<le> z \<and> v \<le> nat z + 1 \<and> v \<le> i)"

definition match_ok :: "nat \<Rightarrow> nat \<Rightarrow> nat \<Rightarrow> nat \<Rightarrow> match \<Rightarrow> bool" where
  "match_ok alo ahi blo bhi m =
     (case m of (besti, bestj, bestsize) \<Rightarrow>
        (bestsize = 0 \<and> besti = alo \<and> bestj = blo) \<or>
        (bestsize > 0 \<and> alo < besti + bestsize \<and> besti + bestsize \<le> ahi
          \<and> blo < bestj + bestsize \<and> bestj + bestsize \<le> bhi))"

lemma inner_loop_bounds:
  assumes "j2len_ok i j2len" and "alo \<le> i" and "i < ahi"
    and "j2len_ok (i + 1) newj2len" and "match_ok alo ahi blo bhi best"
    and "inner_loop i blo bhi j2len js (newj2len, best) = (newj2len', best')"
  shows "j2len_ok (i + 1) newj2len' \<and> match_ok alo ahi blo bhi best'"
  using assms(4-6)
proof (induction js arbitrary: newj2len best)
  case Nil
  then show ?case by simp
next
  case (Cons j js)
  obtain besti bestj bestsize where best: "best = (besti, bestj, bestsize)"
    by (cases best)
  define k where "k = (case j2len (int j - 1) of None \<Rightarrow> 0 | Some v \<Rightarrow> v) + 1"
  have k: "0 < k" "k \<le> j + 1" "k \<le> i + 1"
  proof -
    show "0 < k" by (simp add: k_def)
    show "k \<le> j + 1"
    proof (cases "j2len (int j - 1)")
      case None
      then show ?thesis by (simp add: k_def)
    next
      case (Some v)
      with assms(1) have "0 \<le> int j - 1 \<and> v \<le> nat (int j - 1) + 1 \<and> v \<le> i"
        unfolding j2len_ok_def by blast
      then have "v \<le> j" by linarith
      with Some show ?thesis by (simp add: k_def)
    qed
    show "k \<le> i + 1"
    proof (cases "j2len (int j - 1)")
      case None
      then show ?thesis by (simp add: k_def)
    next
      case (Some v)
      with assms(1) have "0 \<le> int j - 1 \<and> v \<le> nat (int j - 1) + 1 \<and> v \<le> i"
        unfolding j2len_ok_def by blast
      then have "v \<le> i" by simp
      with Some show ?thesis by (simp add: k_def)
    qed
  qed
  have upd: "j2len_ok (i + 1) (newj2len(int j \<mapsto> k))"
    using Cons.prems(1) k unfolding j2len_ok_def by simp
  show ?case
  proof (cases "j < blo")
    case True
    have "inner_loop i blo bhi j2len js (newj2len, best) = (newj2len', best')"
      using Cons.prems(3) best True by simp
    from Cons.IH [OF Cons.prems(1) Cons.prems(2) this] show ?thesis .
  next
    case low: False
    show ?thesis
    proof (cases "j \<ge> bhi")
      case True
      have "newj2len' = newj2len" "best' = best"
        using Cons.prems(3) best low True by simp_all
      then show ?thesis using Cons.prems(1) Cons.prems(2) by simp
    next
      case high: False
      show ?thesis
      proof (cases "k > bestsize")
        case True
        have m: "match_ok alo ahi blo bhi (i + 1 - k, j + 1 - k, k)"
          unfolding match_ok_def using k low high assms(2) assms(3) by simp
        have "inner_loop i blo bhi j2len js
            (newj2len(int j \<mapsto> k), i + 1 - k, j + 1 - k, k) = (newj2len', best')"
          using Cons.prems(3) best low high True by (simp add: k_def Let_def)
        from Cons.IH [OF upd m this] show ?thesis .
      next
        case False
        have m: "match_ok alo ahi blo bhi (besti, bestj, bestsize)"
          using Cons.prems(2) best by simp
        have "inner_loop i blo bhi j2len js
            (newj2len(int j \<mapsto> k), besti, bestj, bestsize) = (newj2len', best')"
          using Cons.prems(3) best low high False by (simp add: k_def Let_def)
        from Cons.IH [OF upd m this] show ?thesis .
      qed
    qed
  qed
qed

lemma outer_loop_bounds:
  "j2len_ok i j2len \<Longrightarrow> alo \<le> i \<Longrightarrow> match_ok alo ahi blo bhi best \<Longrightarrow>
   match_ok alo ahi blo bhi (outer_loop a b2j blo bhi [i ..< ahi] (j2len, best))"
proof (induction "ahi - i" arbitrary: i j2len best)
  case 0
  then show ?case by simp
next
  case (Suc d)
  then have lt: "i < ahi" by simp
  obtain nj nb where il: "inner_loop i blo bhi j2len
      (case b2j (a ! i) of None \<Rightarrow> [] | Some js \<Rightarrow> js) (Map.empty, best) = (nj, nb)"
    by (cases "inner_loop i blo bhi j2len
      (case b2j (a ! i) of None \<Rightarrow> [] | Some js \<Rightarrow> js) (Map.empty, best)")
  have "j2len_ok (i + 1) Map.empty" by (simp add: j2len_ok_def)
  from inner_loop_bounds [OF Suc.prems(1) Suc.prems(2) lt this Suc.prems(3) il]
  have inv: "j2len_ok (Suc i) nj" "match_ok alo ahi blo bhi nb" by simp_all
  have "d = ahi - Suc i" using Suc.hyps(2) by simp
  from Suc.hyps(1) [OF this inv(1) _ inv(2)] Suc.prems(2)
  have "match_ok alo ahi blo bhi (outer_loop a b2j blo bhi [Suc i ..< ahi] (nj, nb))"
    by simp
  then show ?case using lt il by (simp add: upt_conv_Cons)
qed

lemma extend_left_bounds:
  "match_ok alo ahi blo bhi m \<Longrightarrow> match_ok alo ahi blo bhi (extend_left a b alo blo m)"
proof (induction a b alo blo m rule: extend_left.induct)
  case (1 a b alo blo besti bestj bestsize)
  show ?case
  proof (cases "besti > alo \<and> bestj > blo \<and> a ! (besti - 1) = b ! (bestj - 1)")
    case True
    have "match_ok alo ahi blo bhi (besti - 1, bestj - 1, bestsize + 1)"
      using "1.prems" True unfolding match_ok_def by auto
    from "1.IH" [OF True this] show ?thesis
      using True by (subst extend_left.simps) simp
  next
    case False
    show ?thesis
      using False "1.prems" by (subst extend_left.simps) auto
  qed
qed

lemma extend_right_bounds:
  "match_ok alo ahi blo bhi m \<Longrightarrow> match_ok alo ahi blo bhi (extend_right a b ahi bhi m)"
proof (induction a b ahi bhi m rule: extend_right.induct)
  case (1 a b ahi bhi besti bestj bestsize)
  show ?case
  proof (cases "besti + bestsize < ahi \<and> bestj + bestsize < bhi
         \<and> a ! (besti + bestsize) = b ! (bestj + bestsize)")
    case True
    have "match_ok alo ahi blo bhi (besti, bestj, bestsize + 1)"
      using "1.prems" True unfolding match_ok_def by auto
    from "1.IH" [OF True this] show ?thesis
      using True by (subst extend_right.simps) simp
  next
    case False
    show ?thesis
      using False "1.prems" by (subst extend_right.simps) auto
  qed
qed

lemma find_longest_match_bounds:
  "match_ok alo ahi blo bhi (find_longest_match a b b2j alo ahi blo bhi)"
proof -
  have j: "j2len_ok alo Map.empty" by (simp add: j2len_ok_def)
  have m: "match_ok alo ahi blo bhi (alo, blo, 0)" by (simp add: match_ok_def)
  have "match_ok alo ahi blo bhi
      (outer_loop a b2j blo bhi [alo ..< ahi] (Map.empty, (alo, blo, 0)))"
    using outer_loop_bounds [OF j le_refl m] .
  then have "match_ok alo ahi blo bhi (extend_left a b alo blo
      (outer_loop a b2j blo bhi [alo ..< ahi] (Map.empty, (alo, blo, 0))))"
    by (rule extend_left_bounds)
  then show ?thesis
    unfolding find_longest_match_def by (rule extend_right_bounds)
qed

lemma find_longest_match_nonempty:
  "(i, j, k) = find_longest_match a b b2j alo ahi blo bhi \<Longrightarrow> k \<noteq> 0 \<Longrightarrow>
   alo < i + k \<and> i + k \<le> ahi \<and> blo < j + k \<and> j + k \<le> bhi"
  using find_longest_match_bounds [of alo ahi blo bhi a b b2j]
  by (auto simp: match_ok_def)

subsection \<open>\<^verbatim>\<open>SequenceMatcher.get_matching_blocks\<close>\<close>

text \<open>
  The loop over \<^verbatim>\<open>queue\<close>. The source pops the last element of the queue and appends
  at its end; here the head of the list is the last element of the queue.
\<close>

function match_loop ::
  "'a list \<Rightarrow> 'a list \<Rightarrow> ('a \<rightharpoonup> nat list) \<Rightarrow> (nat \<times> nat \<times> nat \<times> nat) list \<Rightarrow> match list
   \<Rightarrow> match list"
where
  "match_loop a b b2j [] matching_blocks = matching_blocks"
| "match_loop a b b2j ((alo, ahi, blo, bhi) # queue) matching_blocks =
     (case find_longest_match a b b2j alo ahi blo bhi of
        (i, j, k) \<Rightarrow>
          if k \<noteq> 0
          then match_loop a b b2j
                 ((if i + k < ahi \<and> j + k < bhi then [(i + k, ahi, j + k, bhi)] else [])
                  @ (if alo < i \<and> blo < j then [(alo, i, blo, j)] else [])
                  @ queue)
                 (matching_blocks @ [(i, j, k)])
          else match_loop a b b2j queue matching_blocks)"
  by pat_completeness auto
termination
proof (relation "measure (\<lambda>(a, b, b2j, queue, blocks).
    sum_list (map (\<lambda>(alo, ahi, blo, bhi). (ahi - alo) + (bhi - blo) + 1) queue))",
    goal_cases)
  case 1
  show ?case by simp
next
  case (2 a b b2j alo ahi blo bhi queue matching_blocks i y j k)
  then have "(i, j, k) = find_longest_match a b b2j alo ahi blo bhi" by simp
  from find_longest_match_nonempty [OF this \<open>k \<noteq> 0\<close>]
  have "alo < i + k" "i + k \<le> ahi" "blo < j + k" "j + k \<le> bhi" by simp_all
  then show ?case using \<open>k \<noteq> 0\<close> by auto
next
  case 3
  show ?case by simp
qed

declare match_loop.simps [simp del]

text \<open>
  \<^verbatim>\<open>get_matching_blocks\<close>: the blocks found are sorted, adjacent blocks are collapsed
  into one, and the sentinel \<open>(la, lb, 0)\<close> ends the list.
\<close>

fun collapse_loop :: "match list \<Rightarrow> match \<Rightarrow> match list \<Rightarrow> match \<times> match list" where
  "collapse_loop [] (i1, j1, k1) non_adjacent = ((i1, j1, k1), non_adjacent)"
| "collapse_loop ((i2, j2, k2) # rest) (i1, j1, k1) non_adjacent =
     (if i1 + k1 = i2 \<and> j1 + k1 = j2
      then collapse_loop rest (i1, j1, k1 + k2) non_adjacent
      else collapse_loop rest (i2, j2, k2)
             (if k1 \<noteq> 0 then non_adjacent @ [(i1, j1, k1)] else non_adjacent))"

definition get_matching_blocks :: "'a list \<Rightarrow> 'a list \<Rightarrow> match list" where
  "get_matching_blocks a b =
     (let la = length a; lb = length b;
          matching_blocks = sort (match_loop a b (chain_b b) [(0, la, 0, lb)] [])
      in case collapse_loop matching_blocks (0, 0, 0) [] of
           ((i1, j1, k1), non_adjacent) \<Rightarrow>
             (if k1 \<noteq> 0 then non_adjacent @ [(i1, j1, k1)] else non_adjacent) @ [(la, lb, 0)])"

subsection \<open>\<^verbatim>\<open>SequenceMatcher.get_opcodes\<close> and \<^verbatim>\<open>get_grouped_opcodes\<close>\<close>

datatype tag = Replace | Delete | Insert | Equal

type_synonym opcode = "tag \<times> nat \<times> nat \<times> nat \<times> nat"

fun opcodes_loop :: "match list \<Rightarrow> nat \<Rightarrow> nat \<Rightarrow> opcode list \<Rightarrow> opcode list" where
  "opcodes_loop [] i j answer = answer"
| "opcodes_loop ((ai, bj, size') # rest) i j answer =
     (let answer1 =
            (if i < ai \<and> j < bj then answer @ [(Replace, i, ai, j, bj)]
             else if i < ai then answer @ [(Delete, i, ai, j, bj)]
             else if j < bj then answer @ [(Insert, i, ai, j, bj)]
             else answer);
          answer2 =
            (if size' \<noteq> 0 then answer1 @ [(Equal, ai, ai + size', bj, bj + size')]
             else answer1)
      in opcodes_loop rest (ai + size') (bj + size') answer2)"

definition get_opcodes :: "'a list \<Rightarrow> 'a list \<Rightarrow> opcode list" where
  "get_opcodes a b = opcodes_loop (get_matching_blocks a b) 0 0 []"

text \<open>
  The loop of \<^verbatim>\<open>get_grouped_opcodes\<close> with \<open>n = 3\<close>: \<open>grp\<close> is the group being
  built, \<open>groups\<close> the groups yielded so far. Where the source computes \<open>i2 - n\<close> below
  zero it takes the maximum with an index, which is the result here too.
\<close>

fun group_loop :: "opcode list \<Rightarrow> opcode list \<Rightarrow> opcode list list \<Rightarrow> opcode list list" where
  "group_loop [] grp groups =
     (if grp \<noteq> [] \<and> \<not> (length grp = 1 \<and> fst (hd grp) = Equal) then groups @ [grp]
      else groups)"
| "group_loop ((tag, i1, i2, j1, j2) # codes) grp groups =
     (if tag = Equal \<and> i2 - i1 > 6
      then group_loop codes [(tag, max i1 (i2 - 3), i2, max j1 (j2 - 3), j2)]
             (groups @ [grp @ [(tag, i1, min i2 (i1 + 3), j1, min j2 (j1 + 3))]])
      else group_loop codes (grp @ [(tag, i1, i2, j1, j2)]) groups)"

definition fix_first :: "opcode list \<Rightarrow> opcode list" where
  "fix_first codes =
     (case hd codes of
        (Equal, i1, i2, j1, j2) \<Rightarrow> codes[0 := (Equal, max i1 (i2 - 3), i2, max j1 (j2 - 3), j2)]
      | _ \<Rightarrow> codes)"

definition fix_last :: "opcode list \<Rightarrow> opcode list" where
  "fix_last codes =
     (case last codes of
        (Equal, i1, i2, j1, j2) \<Rightarrow>
          codes[length codes - 1 := (Equal, i1, min i2 (i1 + 3), j1, min j2 (j1 + 3))]
      | _ \<Rightarrow> codes)"

definition get_grouped_opcodes :: "'a list \<Rightarrow> 'a list \<Rightarrow> opcode list list" where
  "get_grouped_opcodes a b =
     (let codes = get_opcodes a b;
          codes = (if codes = [] then [(Equal, 0, 1, 0, 1)] else codes)
      in group_loop (fix_last (fix_first codes)) [] [])"

subsection \<open>\<^verbatim>\<open>unified_diff\<close> and \<^verbatim>\<open>compare_configs\<close>\<close>

definition format_range_unified :: "nat \<Rightarrow> nat \<Rightarrow> string" where
  "format_range_unified start stop =
     (let beginning = start + 1; len = stop - start
      in if len = 1 then str_of beginning
         else str_of (if len = 0 then beginning - 1 else beginning) @ '','' @ str_of len)"

text \<open>The slice \<^verbatim>\<open>xs[i:j]\<close>.\<close>

definition slice :: "'a list \<Rightarrow> nat \<Rightarrow> nat \<Rightarrow> 'a list" where
  "slice xs i j = take (j - i) (drop i xs)"

fun opcode_lines :: "string list \<Rightarrow> string list \<Rightarrow> opcode \<Rightarrow> string list" where
  "opcode_lines a b (tag, i1, i2, j1, j2) =
     (if tag = Equal then map (\<lambda>line. '' '' @ line) (slice a i1 i2)
      else (if tag = Replace \<or> tag = Delete then map (\<lambda>line. ''-'' @ line) (slice a i1 i2)
            else [])
         @ (if tag = Replace \<or> tag = Insert then map (\<lambda>line. ''+'' @ line) (slice b j1 j2)
            else []))"

definition hunk :: "string list \<Rightarrow> string list \<Rightarrow> opcode list \<Rightarrow> string list" where
  "hunk a b grp =
     (case (hd grp, last grp) of
        ((tag1, first1, first2, first3, first4), (tag2, last1, last2, last3, last4)) \<Rightarrow>
          (''@@ -'' @ format_range_unified first1 last2 @ '' +''
             @ format_range_unified first3 last4 @ '' @@'')
          # concat (map (opcode_lines a b) grp))"

text \<open>
  \<^verbatim>\<open>unified_diff(a, b, lineterm='')\<close>: the two header lines come before the first
  group, when there is one.
\<close>

definition unified_diff :: "string list \<Rightarrow> string list \<Rightarrow> string list" where
  "unified_diff a b =
     (let groups = get_grouped_opcodes a b
      in (if groups = [] then [] else [''--- '', ''+++ '']) @ concat (map (hunk a b) groups))"

definition compare_configs :: "string list \<Rightarrow> string list \<Rightarrow> string list" where
  "compare_configs before after =
     filter (\<lambda>line. \<not> startswith line ''---'' \<and> \<not> startswith line ''+++'')
       (unified_diff before after)"

section \<open>Risk classifier\<close>

text \<open>The dictionary \<^verbatim>\<open>critical_ports\<close>.\<close>

definition critical_ports :: "(nat \<times> string) list" where
  "critical_ports =
    [ (22, ''SSH - Used for remote access, often targeted by attackers.''),
      (80, ''HTTP - Often unencrypted, vulnerable to various attacks.''),
      (443, ''HTTPS - Critical for secure web traffic, targeted for MiTM attacks.''),
      (8080, ''HTTP Proxy - Can bypass normal firewall rules, potentially dangerous.''),
      (53, ''DNS - Can be used for DNS amplification attacks.''),
      (3306, ''MySQL - Often targeted in brute force attacks.''),
      (21, ''FTP - Unencrypted file transfers, vulnerable to interception.''),
      (23, ''Telnet - Unencrypted communication, easily intercepted.''),
      (1433, ''MS SQL Server - Database often targeted.''),
      (3389, ''RDP - Remote desktop access, vulnerable to brute force attacks.''),
      (5432, ''PostgreSQL - Target database for attacks.''),
      (27017, ''MongoDB - NoSQL database, often misconfigured.'') ]"

text \<open>The list \<^verbatim>\<open>risky_patterns\<close>, in the order of the source.\<close>

definition digits09 :: rx where
  "digits09 = Plus (Range CHR ''0'' CHR ''9'')"

definition risky_patterns :: "(rx \<times> string) list" where
  "risky_patterns =
    [ (cat [Lit ''iptables'', Star Dot, Lit ''-j'', Plus Space, Lit ''ACCEPT'', Star Space, Eol],
       ''High risk: Unconditional acceptance rule without restrictions''),
      (cat [Lit ''iptables'', Star Dot, Lit ''-A'', Plus Space, Lit ''INPUT'', Star Dot,
            Lit ''-j'', Plus Space, Lit ''ACCEPT'', Star Space, Eol],
       ''Medium risk: Input acceptance rule without specific filters''),
      (cat [Lit ''iptables'', Star Dot, Lit ''-A'', Plus Space, Lit ''FORWARD'', Star Dot,
            Lit ''-j'', Plus Space, Lit ''ACCEPT'', Star Space, Eol],
       ''High risk: Forwarding rule without restrictions, potential pivot point''),

      (cat [Lit ''iptables'', Star Dot, Lit ''--dport'', Plus Space, Lit ''0:65535''],
       ''Critical risk: Complete port range open''),
      (cat [Lit ''iptables'', Star Dot, Lit ''--dport'', Plus Space, Lit ''1:1024''],
       ''High risk: All privileged ports open''),
      (cat [Lit ''iptables'', Star Dot, Lit ''--dport'', Plus Space, digits09, Lit '':'', digits09],
       ''Medium risk: Port range detected, verify if necessary''),

      (cat [Lit ''iptables'', Star Dot, Lit ''-s'', Plus Space, Lit ''0.0.0.0/0'', Star Dot,
            Lit ''-j'', Plus Space, Lit ''ACCEPT''],
       ''High risk: Accepting traffic from any source IP''),
      (cat [Lit ''iptables'', Star Dot, Lit ''-A'', Plus Space, Lit ''INPUT'', Plus Space,
            Lit ''-s'', Plus Space, Lit ''192.168.'', digits09, Lit ''.'', digits09, Lit ''/'',
            digits09, Star Dot, Lit ''-j'', Plus Space, Lit ''ACCEPT''],
       ''Low risk: Private network access rule, verify scope''),

      (cat [Lit ''iptables'', Star Dot, Lit ''-j'', Plus Space, Lit ''DROP'', Star Dot,
            Lit ''--state'', Plus Space, Lit ''INVALID''],
       ''Medium risk: Security rule for invalid packets modified/removed''),
      (cat [Lit ''iptables'', Star Dot, Lit ''-j'', Plus Space, Lit ''DROP'', Star Dot,
            Lit ''--state'', Plus Space, Lit ''NEW'', Star Dot, Lit ''-m'', Plus Space,
            Lit ''state'', Plus Space, Lit ''--state'', Plus Space, Lit ''ESTABLISHED''],
       ''High risk: State tracking rule modified/removed''),

      (cat [Lit ''iptables'', Star Dot, Lit '':INPUT'', Plus Space, Lit ''ACCEPT''],
       ''High risk: Default INPUT policy set to ACCEPT''),
      (cat [Lit ''iptables'', Star Dot, Lit '':FORWARD'', Plus Space, Lit ''ACCEPT''],
       ''High risk: Default FORWARD policy set to ACCEPT''),

      (cat [Lit ''iptables'', Star Dot, Lit ''-A'', Plus Space, Lit ''INPUT'', Star Dot,
            Lit ''--dport'', Plus Space, Lit ''3389'', Star Dot, Lit ''-j'', Plus Space,
            Lit ''ACCEPT''],
       ''Medium risk: RDP port opened, vulnerable to brute force''),
      (cat [Lit ''iptables'', Star Dot, Lit ''-A'', Plus Space, Lit ''INPUT'', Star Dot,
            Lit ''--dport'', Plus Space, Lit ''22'', Star Dot, Lit ''-j'', Plus Space,
            Lit ''ACCEPT'', Star Space, Eol],
       ''Medium risk: SSH port opened without IP restriction''),
      (cat [Lit ''iptables'', Star Dot, Lit ''-A'', Plus Space, Lit ''INPUT'', Star Dot,
            Lit ''--dport'', Plus Space,
            Grp 1 (Alt (Lit ''1433'') (Alt (Lit ''3306'') (Alt (Lit ''5432'') (Lit ''27017'')))),
            Star Dot, Lit ''-j'', Plus Space, Lit ''ACCEPT'', Star Space, Eol],
       ''High risk: Database port exposed without restrictions'') ]"

text \<open>The pattern \<^verbatim>\<open>--dport\s+(\d+)(?:-(\d+))?\<close> of the port check.\<close>

definition port_pattern :: rx where
  "port_pattern =
     cat [Lit ''--dport'', Plus Space, Grp 1 (Plus Digit),
          Opt (cat [Lit ''-'', Grp 2 (Plus Digit)])]"

text \<open>
  The port check on one \<^verbatim>\<open>+\<close> line. Group 1 is set in every match of the pattern; a
  group 2 that is unset or empty is the single-port branch.
\<close>

definition port_findings :: "string \<Rightarrow> string list" where
  "port_findings line =
     (case re_search port_pattern line of
        None \<Rightarrow> []
      | Some port_match \<Rightarrow>
          (case group port_match 1 of
             None \<Rightarrow> []
           | Some g1 \<Rightarrow>
               (case group port_match 2 of
                  Some (d # ds) \<Rightarrow>
                    (let start_port = int_of g1; end_port = int_of (d # ds)
                     in concat (map (\<lambda>port.
                          case map_of critical_ports port of
                            Some description \<Rightarrow>
                              [''[bold red]Security Risk Detected![/bold red] - '' @ strip line
                               @ '' (Port '' @ str_of port @ '': '' @ description @ '')'']
                          | None \<Rightarrow> [])
                        [start_port ..< end_port + 1]))
                | _ \<Rightarrow>
                    (let port = int_of g1
                     in case map_of critical_ports port of
                          Some description \<Rightarrow>
                            [''[bold red]Security Risk Detected![/bold red] - '' @ strip line
                             @ '' ('' @ description @ '')'']
                        | None \<Rightarrow> []))))"

text \<open>The pattern-based detection on one \<^verbatim>\<open>+\<close> line.\<close>

definition pattern_findings :: "string \<Rightarrow> string list" where
  "pattern_findings line =
     concat (map (\<lambda>(pattern, description).
         if re_search pattern line \<noteq> None
         then [''[bold yellow]Potential Risk![/bold yellow] - '' @ strip line
               @ '' ('' @ description @ '')'']
         else [])
       risky_patterns)"

text \<open>The body of the loop over the lines of the diff, and the loop.\<close>

definition line_findings :: "string \<Rightarrow> string list" where
  "line_findings line =
     (if startswith line ''+'' then port_findings line @ pattern_findings line else [])"

definition detect_security_risks :: "string list \<Rightarrow> string list" where
  "detect_security_risks diff_lines = concat (map line_findings diff_lines)"

section \<open>Impact scorer\<close>

text \<open>
  A Python \<^verbatim>\<open>float\<close> is a binary64 number. Its finite values are modelled as the
  rationals they denote, and an operation as the exact operation followed by the rounding
  \<open>double\<close> to the nearest number with a significand of 53 bits, a tie going to the even
  significand. The exponent is not bounded here: the scorer divides counts of lines by at
  least 50, so that no result leaves the range of the normal numbers.
\<close>

definition round_half_even :: "rat \<Rightarrow> int" where
  "round_half_even x =
     (let f = \<lfloor>x\<rfloor>; d = x - of_int f
      in if d < 1 / 2 then f else if d > 1 / 2 then f + 1 else if even f then f else f + 1)"

text \<open>\<open>ilog2 x\<close> is the integer \<open>e\<close> with \<open>2 ^ e \<le> x < 2 ^ (e + 1)\<close>, for \<open>x > 0\<close>.\<close>

definition ilog2 :: "rat \<Rightarrow> int" where
  "ilog2 x =
     (if x \<ge> 1 then int (floorlog 2 (nat \<lfloor>x\<rfloor>)) - 1
      else - int (floorlog 2 (nat (\<lceil>1 / x\<rceil> - 1))))"

definition double :: "rat \<Rightarrow> rat" where
  "double x =
     (if x = 0 then 0
      else let e = ilog2 \<bar>x\<bar> - 52
           in of_int (round_half_even (x / 2 powi e)) * 2 powi e)"

definition fadd :: "rat \<Rightarrow> rat \<Rightarrow> rat" where
  "fadd x y = double (x + y)"

definition fmul :: "rat \<Rightarrow> rat \<Rightarrow> rat" where
  "fmul x y = double (x * y)"

definition fdiv :: "rat \<Rightarrow> rat \<Rightarrow> rat" where
  "fdiv x y = double (x / y)"

text \<open>The conversion of an \<^verbatim>\<open>int\<close> count to \<^verbatim>\<open>float\<close>.\<close>

definition float_of :: "nat \<Rightarrow> rat" where
  "float_of n = double (of_nat n)"

text \<open>
  \<^verbatim>\<open>round(x, 2)\<close>: the decimal with two digits nearest to the exact value of \<open>x\<close>, a tie
  going to the even digit, then the float nearest to that decimal.
\<close>

definition round2 :: "rat \<Rightarrow> rat" where
  "round2 x = double (of_int (round_half_even (x * 100)) / 100)"

record impact_metrics =
  chaos_score :: rat
  additions :: nat
  removals :: nat
  input_changes :: nat
  output_changes :: nat
  forward_changes :: nat

definition count_lines :: "(string \<Rightarrow> bool) \<Rightarrow> string list \<Rightarrow> nat" where
  "count_lines p diff_lines = length (filter p diff_lines)"

text \<open>
  The chaos index of \<^verbatim>\<open>calculate_impact_metrics\<close>, as a function of the three counts
  it is computed from.
\<close>

definition chaos_index :: "nat \<Rightarrow> nat \<Rightarrow> nat \<Rightarrow> rat" where
  "chaos_index add_count remove_count total_lines =
     (let weight_add = 3 / 2;
          weight_remove = 1;
          chaos = fadd (fmul (float_of add_count) weight_add)
                    (fmul (float_of remove_count) weight_remove);
          max_expected_score =
            (if total_lines > 0 then max 50 (min 200 (fdiv (of_nat total_lines) 2)) else 50);
          scaled_chaos = min 100 (fmul (fdiv chaos max_expected_score) 100)
      in round2 scaled_chaos)"

definition calculate_impact_metrics :: "string list \<Rightarrow> impact_metrics" where
  "calculate_impact_metrics diff_lines =
     (let add_count = count_lines (\<lambda>line. startswith line ''+'') diff_lines;
          remove_count = count_lines (\<lambda>line. startswith line ''-'') diff_lines;
          total_lines = count_lines (\<lambda>line. startswith line ''+'' \<or> startswith line ''-''
                                        \<or> startswith line '' '') diff_lines;
          changed = (\<lambda>line. startswith line ''+'' \<or> startswith line ''-'')
      in \<lparr> chaos_score = chaos_index add_count remove_count total_lines,
           additions = add_count,
           removals = remove_count,
           input_changes = count_lines (\<lambda>line. changed line \<and> contains line ''INPUT'') diff_lines,
           output_changes = count_lines (\<lambda>line. changed line \<and> contains line ''OUTPUT'') diff_lines,
           forward_changes = count_lines (\<lambda>line. changed line \<and> contains line ''FORWARD'') diff_lines \<rparr>)"

section \<open>Format detector: properties\<close>

lemma scan_lines_count:
  "matches < 3 \<Longrightarrow>
   scan_lines matches content = (3 \<le> matches + length (filter line_matches content))"
  by (induction content arbitrary: matches) (auto simp: Let_def)

lemma scan_lines_append:
  "matches < 3 \<Longrightarrow>
   scan_lines matches (xs @ ys) =
     (if 3 \<le> matches + length (filter line_matches xs) then True
      else scan_lines (matches + length (filter line_matches xs)) ys)"
  by (induction xs arbitrary: matches) (auto simp: Let_def)

text \<open>
  Claim C6. The format detector answers true exactly when at least three lines each match
  one of the signatures, a line counting once however many signatures it matches. It
  answers false on the empty input. On \<open>xs @ ys\<close>, where three lines of \<open>xs\<close> match the
  answer is true whatever \<open>ys\<close> is: the scan has returned before it reaches \<open>ys\<close>; where
  fewer do, the scan goes on in \<open>ys\<close> with the count reached.
\<close>

theorem is_iptables_file_threshold:
  "is_iptables_file content = (3 \<le> length (filter line_matches content))
   \<and> is_iptables_file [] = False
   \<and> is_iptables_file (xs @ ys) =
       (if 3 \<le> length (filter line_matches xs) then True
        else scan_lines (length (filter line_matches xs)) ys)"
proof -
  have a: "is_iptables_file content = (3 \<le> length (filter line_matches content))" for content
    using scan_lines_count [of 0 content] by (simp add: is_iptables_file_def)
  have b: "is_iptables_file (xs @ ys) =
       (if 3 \<le> length (filter line_matches xs) then True
        else scan_lines (length (filter line_matches xs)) ys)"
  proof (cases "xs @ ys = []")
    case True
    then show ?thesis by (simp add: is_iptables_file_def)
  next
    case False
    then show ?thesis
      using scan_lines_append [of 0 xs ys] by (simp add: is_iptables_file_def)
  qed
  show ?thesis using a b by (simp add: is_iptables_file_def)
qed

section \<open>Impact scorer: the counts\<close>

lemma count_disjoint:
  "\<forall>x. \<not> (P x \<and> Q x) \<Longrightarrow>
   length (filter P xs) + length (filter Q xs) = length (filter (\<lambda>x. P x \<or> Q x) xs)"
  by (induction xs) auto

lemma plus_not_minus: "\<not> (startswith line ''+'' \<and> startswith line ''-'')"
  by (cases line) (auto simp: startswith_def)

text \<open>
  Claim C8. For every list of lines, \<open>additions\<close> is the number of lines that start with
  \<open>+\<close>, \<open>removals\<close> the number of lines that start with \<open>-\<close>, and their sum the number
  of lines that start with \<open>+\<close> or \<open>-\<close> in that list.
\<close>

theorem additions_removals_count:
  "additions (calculate_impact_metrics diff_lines)
     = length (filter (\<lambda>line. startswith line ''+'') diff_lines)
   \<and> removals (calculate_impact_metrics diff_lines)
     = length (filter (\<lambda>line. startswith line ''-'') diff_lines)
   \<and> additions (calculate_impact_metrics diff_lines)
       + removals (calculate_impact_metrics diff_lines)
     = length (filter (\<lambda>line. startswith line ''+'' \<or> startswith line ''-'') diff_lines)"
proof -
  have "length (filter (\<lambda>line. startswith line ''+'') diff_lines)
      + length (filter (\<lambda>line. startswith line ''-'') diff_lines)
      = length (filter (\<lambda>line. startswith line ''+'' \<or> startswith line ''-'') diff_lines)"
    by (rule count_disjoint) (simp add: plus_not_minus)
  then show ?thesis
    by (simp add: calculate_impact_metrics_def count_lines_def Let_def)
qed

section \<open>Risk classifier: the pattern catalog needs \<open>iptables\<close>\<close>

lemma rx_match_literal_first:
  "rx_match (Seq (Lit w) r) (s, g) \<noteq> [] \<Longrightarrow> startswith s w"
  by (auto split: if_splits)

lemma re_find_literal_first:
  "re_find (Seq (Lit w) r) adv s = Some m \<Longrightarrow> contains s w"
proof (induction s arbitrary: adv m)
  case Nil
  have "rx_match (Seq (Lit w) r) ([], []) \<noteq> []"
  proof
    assume "rx_match (Seq (Lit w) r) ([], []) = []"
    then have "re_find (Seq (Lit w) r) adv [] = None" by simp
    with Nil show False by simp
  qed
  from rx_match_literal_first [OF this] show ?case
    by (simp add: startswith_def)
next
  case (Cons c cs)
  show ?case
  proof (cases "rx_match (Seq (Lit w) r) (c # cs, []) = []")
    case True
    then have "re_find (Seq (Lit w) r) adv (c # cs)
        = map_option (\<lambda>(pre, g, rest). (c # pre, g, rest)) (re_find (Seq (Lit w) r) False cs)"
      by simp
    with Cons.prems obtain m' where "re_find (Seq (Lit w) r) False cs = Some m'"
      by (cases "re_find (Seq (Lit w) r) False cs") auto
    from Cons.IH [OF this] show ?thesis by simp
  next
    case False
    from rx_match_literal_first [OF this] show ?thesis by simp
  qed
qed

lemma re_search_literal_first:
  "\<not> contains s w \<Longrightarrow> re_search (Seq (Lit w) r) s = None"
  using re_find_literal_first [of w r False s]
  by (cases "re_find (Seq (Lit w) r) False s") (auto simp: re_search_def)

lemma risky_patterns_start:
  "(pattern, description) \<in> set risky_patterns \<Longrightarrow> \<exists>r. pattern = Seq (Lit ''iptables'') r"
  unfolding risky_patterns_def by auto

lemma pattern_findings_empty:
  assumes "\<not> contains line ''iptables''"
  shows "pattern_findings line = []"
proof -
  have "re_search pattern line = None"
    if "(pattern, description) \<in> set risky_patterns" for pattern description
    using risky_patterns_start [OF that] re_search_literal_first [OF assms] by auto
  then show ?thesis
    unfolding pattern_findings_def by auto
qed

text \<open>
  Claim C3. On a line that does not contain the text \<open>iptables\<close> the pattern-based
  detection finds nothing: every entry of the catalog starts with that text. The findings
  of such a \<open>+\<close> line are those of the port check alone.
\<close>

theorem pattern_findings_need_iptables:
  assumes "\<not> contains line ''iptables''"
  shows "pattern_findings line = []
    \<and> line_findings line = (if startswith line ''+'' then port_findings line else [])"
  using pattern_findings_empty [OF assms] by (simp add: line_findings_def)

theorem pattern_findings_need_iptables_witness:
  "\<not> contains ''+-A INPUT -p tcp --dport 3389 -j ACCEPT'' ''iptables''
   \<and> pattern_findings ''+-A INPUT -p tcp --dport 3389 -j ACCEPT'' = []
   \<and> line_findings ''+-A INPUT -p tcp --dport 3389 -j ACCEPT''
       = port_findings ''+-A INPUT -p tcp --dport 3389 -j ACCEPT''"
proof -
  have c: "\<not> contains ''+-A INPUT -p tcp --dport 3389 -j ACCEPT'' ''iptables''"
    by (simp add: startswith_def)
  show ?thesis
    using c pattern_findings_need_iptables [OF c] by (simp add: startswith_def)
qed

section \<open>Risk classifier: a port range written with a colon\<close>

lemma no_iptables_range_line:
  "\<not> contains ''+-A INPUT -p tcp --dport 20:25 -j ACCEPT'' ''iptables''"
  by (simp add: startswith_def)

lemma port_search_colon:
  "re_search port_pattern ''+-A INPUT -p tcp --dport 20:25 -j ACCEPT''
     = Some [(0, ''--dport 20''), (1, ''20'')]"
  by (simp add: re_search_def port_pattern_def startswith_def is_space_def is_digit_def)

lemma port_findings_colon:
  "port_findings ''+-A INPUT -p tcp --dport 20:25 -j ACCEPT'' = []"
  by (simp add: port_findings_def port_search_colon group_def int_of_def critical_ports_def)

text \<open>
  Claim C1, at the line of the claim. The pattern of the port check reads a range as
  \<^verbatim>\<open>start-end\<close>: in \<^verbatim>\<open>--dport 20:25\<close> it matches \<^verbatim>\<open>--dport 20\<close> as a single port,
  which is not in the catalog, and the line gives no finding at all: none for port 22 and
  none for port 23.
\<close>

theorem colon_range_no_findings:
  "detect_security_risks [''+-A INPUT -p tcp --dport 20:25 -j ACCEPT''] = []"
  using pattern_findings_empty [OF no_iptables_range_line] port_findings_colon
  by (simp add: detect_security_risks_def line_findings_def)

section \<open>The scenario of one added RDP rule\<close>

text \<open>
  The two inputs of the scenario, each line with its newline, and the diff of the two
  normalized rule sets.
\<close>

definition scenario_before :: "string list" where
  "scenario_before = [''-A INPUT -p tcp --dport 80 -j ACCEPT'' @ [CHR 0x0A]]"

definition scenario_after :: "string list" where
  "scenario_after = scenario_before @ [''-A INPUT -p tcp --dport 3389 -j ACCEPT'' @ [CHR 0x0A]]"

definition scenario_diff :: "string list" where
  "scenario_diff =
     compare_configs (normalize_iptables_config scenario_before)
       (normalize_iptables_config scenario_after)"

lemmas normalize_eval =
  normalize_iptables_config_def is_rule_line_def normalize_line_def strip_def is_space_def
  startswith_def re_sub_def re_sub_from.simps double_dash_def spaces_def single_dash_def
  one_space_def group_def

lemma normalize_scenario_before:
  "normalize_iptables_config scenario_before = [''-A INPUT -p tcp --dport 80 -j ACCEPT'']"
  by (simp add: scenario_before_def normalize_eval)

lemma normalize_scenario_after:
  "normalize_iptables_config scenario_after =
     [''-A INPUT -p tcp --dport 3389 -j ACCEPT'', ''-A INPUT -p tcp --dport 80 -j ACCEPT'']"
  by (simp add: scenario_after_def scenario_before_def normalize_eval)

lemmas differ_eval =
  compare_configs_def unified_diff_def get_grouped_opcodes_def get_opcodes_def
  get_matching_blocks_def match_loop.simps find_longest_match_def chain_b_def
  enumerate_eq_zip upt_rec extend_left.simps extend_right.simps fix_first_def fix_last_def
  hunk_def format_range_unified_def slice_def startswith_def Let_def str_of.simps

lemma scenario_diff_eval:
  "scenario_diff =
     [''@@ -1 +1,2 @@'',
      ''+-A INPUT -p tcp --dport 3389 -j ACCEPT'',
      '' -A INPUT -p tcp --dport 80 -j ACCEPT'']"
  unfolding scenario_diff_def normalize_scenario_before normalize_scenario_after
  by (simp add: differ_eval)

lemma port_search_rdp:
  "re_search port_pattern ''+-A INPUT -p tcp --dport 3389 -j ACCEPT''
     = Some [(0, ''--dport 3389''), (1, ''3389'')]"
  by (simp add: re_search_def port_pattern_def startswith_def is_space_def is_digit_def)

lemma port_findings_rdp:
  "port_findings ''+-A INPUT -p tcp --dport 3389 -j ACCEPT'' =
     [''[bold red]Security Risk Detected![/bold red] - +-A INPUT -p tcp --dport 3389 -j ACCEPT (RDP - Remote desktop access, vulnerable to brute force attacks.)'']"
  by (simp add: port_findings_def port_search_rdp group_def int_of_def critical_ports_def
      strip_def is_space_def)

lemma no_iptables_rdp_line:
  "\<not> contains ''+-A INPUT -p tcp --dport 3389 -j ACCEPT'' ''iptables''"
  by (simp add: startswith_def)

lemma scenario_findings:
  "detect_security_risks scenario_diff =
     [''[bold red]Security Risk Detected![/bold red] - +-A INPUT -p tcp --dport 3389 -j ACCEPT (RDP - Remote desktop access, vulnerable to brute force attacks.)'']"
  unfolding scenario_diff_eval
  using pattern_findings_empty [OF no_iptables_rdp_line] port_findings_rdp
  by (simp add: detect_security_risks_def line_findings_def startswith_def)

lemma chaos_index_scenario: "chaos_index 1 0 2 = 3"
  by code_simp

lemma scenario_metrics:
  "calculate_impact_metrics scenario_diff =
     \<lparr> chaos_score = 3, additions = 1, removals = 0, input_changes = 1, output_changes = 0,
       forward_changes = 0 \<rparr>"
proof -
  have "chaos_index (Suc 0) 0 (Suc (Suc 0)) = 3"
    using chaos_index_scenario by (simp add: numeral_2_eq_2)
  then show ?thesis
    unfolding scenario_diff_eval
    by (simp add: calculate_impact_metrics_def count_lines_def startswith_def Let_def)
qed

text \<open>
  Claim C2 as stated fails: in the scenario no finding is a Medium-risk message. The
  added line has no \<open>iptables\<close> in it, so that no entry of the pattern catalog is found
  in it.
\<close>

theorem scenario_no_medium_risk_finding:
  "\<not> list_ex (\<lambda>finding. contains finding ''Medium risk'')
       (detect_security_risks scenario_diff)"
  unfolding scenario_findings by (simp add: startswith_def)

text \<open>
  Claim C2, amended. In the scenario the diff is a hunk header, one \<open>+\<close> line and one
  context line; the findings are one finding, that of the port check for port 3389 (RDP);
  there is one addition and no removal, and the chaos score is 3.
\<close>

theorem scenario_pipeline:
  "scenario_diff =
     [''@@ -1 +1,2 @@'',
      ''+-A INPUT -p tcp --dport 3389 -j ACCEPT'',
      '' -A INPUT -p tcp --dport 80 -j ACCEPT'']
   \<and> length (filter (\<lambda>line. startswith line ''+'') scenario_diff) = 1
   \<and> detect_security_risks scenario_diff =
     [''[bold red]Security Risk Detected![/bold red] - +-A INPUT -p tcp --dport 3389 -j ACCEPT (RDP - Remote desktop access, vulnerable to brute force attacks.)'']
   \<and> additions (calculate_impact_metrics scenario_diff) = 1
   \<and> removals (calculate_impact_metrics scenario_diff) = 0
   \<and> chaos_score (calculate_impact_metrics scenario_diff) = 3
   \<and> 0 < chaos_score (calculate_impact_metrics scenario_diff)"
proof -
  have "length (filter (\<lambda>line. startswith line ''+'') scenario_diff) = 1"
    unfolding scenario_diff_eval by (simp add: startswith_def)
  then show ?thesis
    using scenario_diff_eval scenario_findings scenario_metrics by simp
qed

end
